theory Spec2Isabelle
  imports Main "HOL-Library.Multiset"
begin

section \<open>The layer document model\<close>

text \<open>
  The program is a thin facade over the scene-description library (\<open>pxr.Sdf\<close>), which is
  not part of the repository. The data the facade reads and writes is modelled as the
  library exposes it: a reference entry with its asset path, the reference-list operation
  of a prim with its prepended sub-list, a prim spec with its path and its children, and a
  layer with its root prims and its sublayer paths.
\<close>

record reference =
  assetPath :: string
  primPath :: string

record ref_list_op =
  prependedItems :: "reference list"
  appendedItems :: "reference list"

datatype prim_spec =
  PrimSpec (path: string) (referenceList: "ref_list_op option") (nameChildren: "prim_spec list")

record layer =
  rootPrims :: "prim_spec list"
  subLayerPaths :: "string list"

text \<open>
  The world the program runs in: the files on disk (a path that maps to nothing cannot be
  opened) and the layers the library currently holds in memory, both keyed by the layer's
  file path. A layer handle is the path of its file.
\<close>

record world =
  disk :: "string \<rightharpoonup> layer"
  memory :: "string \<rightharpoonup> layer"

text \<open>
  Modelled from the spec: the external capability \<open>GetPrimAtPath\<close> of section 6 (the library
  is not under src/). The prim spec at a path is the first spec of the prim tree, in document
  order, that carries this path.
\<close>

fun find_spec :: "string \<Rightarrow> prim_spec \<Rightarrow> prim_spec option"
  and find_specs :: "string \<Rightarrow> prim_spec list \<Rightarrow> prim_spec option" where
  "find_spec p (PrimSpec q r cs) = (if q = p then Some (PrimSpec q r cs) else find_specs p cs)"
| "find_specs p [] = None"
| "find_specs p (s # ss) =
     (case find_spec p s of Some x \<Rightarrow> Some x | None \<Rightarrow> find_specs p ss)"

text \<open>
  Modelled from the spec: writing through a prim-spec proxy (section 6, "get/set a reference
  list operation"). The write reaches the same spec that \<open>find_specs\<close> returns; the result is
  \<open>None\<close> when no spec carries the path.
\<close>

fun update_spec :: "string \<Rightarrow> (prim_spec \<Rightarrow> prim_spec) \<Rightarrow> prim_spec \<Rightarrow> prim_spec option"
  and update_specs :: "string \<Rightarrow> (prim_spec \<Rightarrow> prim_spec) \<Rightarrow> prim_spec list \<Rightarrow> prim_spec list option" where
  "update_spec p f (PrimSpec q r cs) =
     (if q = p then Some (f (PrimSpec q r cs))
      else map_option (PrimSpec q r) (update_specs p f cs))"
| "update_specs p f [] = None"
| "update_specs p f (s # ss) =
     (case update_spec p f s of
        Some s' \<Rightarrow> Some (s' # ss)
      | None \<Rightarrow> map_option ((#) s) (update_specs p f ss))"

text \<open>
  Modelled from the spec: the assignment \<open>ref_list_op.prependedItems = items\<close> on one prim spec
  (section 6); the other sub-lists of the operation, the path and the children stay.
\<close>

definition assign_prependedItems :: "reference list \<Rightarrow> prim_spec \<Rightarrow> prim_spec" where
  "assign_prependedItems items s =
     PrimSpec (path s)
       (map_option (\<lambda>lop. lop\<lparr>prependedItems := items\<rparr>) (referenceList s))
       (nameChildren s)"

text \<open>
  Modelled from the spec: \<open>OpenOrFind(path)\<close> of section 6 (\<open>Sdf.Layer.FindOrOpen\<close>). A layer
  the library already holds is found; otherwise the file is read from disk and kept in
  memory; a path with no file gives no handle.
\<close>

definition FindOrOpen :: "world \<Rightarrow> string \<Rightarrow> string option \<times> world" where
  "FindOrOpen w u =
     (case memory w u of
        Some l \<Rightarrow> (Some u, w)
      | None \<Rightarrow>
          (case disk w u of
             Some l \<Rightarrow> (Some u, w\<lparr>memory := (memory w)(u \<mapsto> l)\<rparr>)
           | None \<Rightarrow> (None, w)))"

text \<open>
  Modelled from the spec: \<open>Reload(LayerHandle)\<close> of section 6, which "re-synchronizes the
  in-memory representation with the file on disk": the layer in memory becomes the content
  of the file, whatever was in memory before (unsaved edits included). When the file is
  gone the reload fails and the layer in memory stays; the program ignores the result.
\<close>

definition Reload :: "world \<Rightarrow> string \<Rightarrow> world" where
  "Reload w h =
     (case disk w h of
        Some l \<Rightarrow> w\<lparr>memory := (memory w)(h \<mapsto> l)\<rparr>
      | None \<Rightarrow> w)"

text \<open>
  Modelled from the spec: \<open>Save(LayerHandle)\<close> of section 6, which "writes the current
  in-memory state back to the USDA file on disk".
\<close>

definition Save :: "world \<Rightarrow> string \<Rightarrow> world" where
  "Save w h =
     (case memory w h of
        Some l \<Rightarrow> w\<lparr>disk := (disk w)(h \<mapsto> l)\<rparr>
      | None \<Rightarrow> w)"

text \<open>
  Modelled from the spec: \<open>GetPrimAtPath(LayerHandle, primPath)\<close> of section 6. The prim spec
  it returns is a proxy into the layer in memory: the layer handle with the prim path.
\<close>

type_synonym spec_handle = "string \<times> string"

definition GetPrimAtPath :: "world \<Rightarrow> string \<Rightarrow> string \<Rightarrow> spec_handle option" where
  "GetPrimAtPath w h p =
     (case memory w h of
        None \<Rightarrow> None
      | Some l \<Rightarrow> (case find_specs p (rootPrims l) of None \<Rightarrow> None | Some s \<Rightarrow> Some (h, p)))"

text \<open>
  Modelled from the spec: reading and assigning the reference-list operation through the
  prim-spec proxy (section 6). Both go to the layer in memory.
\<close>

definition get_referenceList :: "world \<Rightarrow> spec_handle \<Rightarrow> ref_list_op option" where
  "get_referenceList w ps =
     (case memory w (fst ps) of
        None \<Rightarrow> None
      | Some l \<Rightarrow>
          (case find_specs (snd ps) (rootPrims l) of
             None \<Rightarrow> None
           | Some s \<Rightarrow> referenceList s))"

definition set_prependedItems :: "world \<Rightarrow> spec_handle \<Rightarrow> reference list \<Rightarrow> world" where
  "set_prependedItems w ps items =
     (case memory w (fst ps) of
        None \<Rightarrow> w
      | Some l \<Rightarrow>
          (case update_specs (snd ps) (assign_prependedItems items) (rootPrims l) of
             None \<Rightarrow> w
           | Some rs \<Rightarrow> w\<lparr>memory := (memory w)(fst ps \<mapsto> l\<lparr>rootPrims := rs\<rparr>)\<rparr>))"

text \<open>
  Modelled from the spec: reading and assigning \<open>subLayerPaths\<close> and reading \<open>rootPrims\<close> on a
  layer handle (section 6). All three go to the layer in memory.
\<close>

definition get_subLayerPaths :: "world \<Rightarrow> string \<Rightarrow> string list" where
  "get_subLayerPaths w h = (case memory w h of None \<Rightarrow> [] | Some l \<Rightarrow> subLayerPaths l)"

definition set_subLayerPaths :: "world \<Rightarrow> string \<Rightarrow> string list \<Rightarrow> world" where
  "set_subLayerPaths w h ps =
     (case memory w h of
        None \<Rightarrow> w
      | Some l \<Rightarrow> w\<lparr>memory := (memory w)(h \<mapsto> l\<lparr>subLayerPaths := ps\<rparr>)\<rparr>)"

definition get_rootPrims :: "world \<Rightarrow> string \<Rightarrow> prim_spec list" where
  "get_rootPrims w h = (case memory w h of None \<Rightarrow> [] | Some l \<Rightarrow> rootPrims l)"

section \<open>Errors\<close>

text \<open>
  Every failure of the program is a Python \<open>RuntimeError\<close>; the constructors name the five
  places that raise one, after section 7 of the specification:
  \<^item> \<open>LayerOpenError u\<close>: "Could not open USD layer: u";
  \<^item> \<open>PrimNotFoundError p\<close>: "Could not find prim at path: p";
  \<^item> \<open>NoReferencesError\<close>: "Prim has no references to reorder.";
  \<^item> \<open>NoPrependedReferencesError\<close>: "No prepended references found on prim.";
  \<^item> \<open>UnknownReferenceError k\<close>: "Unknown reference path in new_order: k", where \<open>k\<close> is the
    key whose lookup raised \<open>KeyError\<close>.
\<close>

datatype error =
  LayerOpenError string
  | PrimNotFoundError string
  | NoReferencesError
  | NoPrependedReferencesError
  | UnknownReferenceError string

section \<open>UsdPrimRefEditor\<close>

text \<open>
  The class \<open>UsdPrimRefEditor\<close> (lines 8 to 88). Its field \<open>_layer\<close> is \<open>cached_layer\<close>. A
  method takes the editor and the world and returns its result or error together with the
  editor and the world as the call leaves them, also when it raises.
\<close>

record UsdPrimRefEditor =
  usda_path :: string
  prim_path :: string
  cached_layer :: "string option"

definition startswith :: "string \<Rightarrow> string \<Rightarrow> bool" where
  "startswith s pre = (take (length pre) s = pre)"

definition UsdPrimRefEditor_init :: "string \<Rightarrow> string \<Rightarrow> UsdPrimRefEditor" where
  "UsdPrimRefEditor_init u p =
     \<lparr>usda_path = u,
      prim_path = (if startswith p ''/'' then p else ''/'' @ p),
      cached_layer = None\<rparr>"

text \<open>
  \<open>_get_layer\<close> (lines 20 to 32): find or open the layer on first use, then reload it on
  every call.
\<close>

definition get_layer :: "UsdPrimRefEditor \<Rightarrow> world \<Rightarrow> (error + string) \<times> UsdPrimRefEditor \<times> world" where
  "get_layer e w =
     (case cached_layer e of
        None \<Rightarrow>
          (case FindOrOpen w (usda_path e) of
             (None, w1) \<Rightarrow> (Inl (LayerOpenError (usda_path e)), e, w1)
           | (Some h, w1) \<Rightarrow> (Inr h, e\<lparr>cached_layer := Some h\<rparr>, Reload w1 h))
      | Some h \<Rightarrow> (Inr h, e, Reload w h))"

text \<open>\<open>_get_prim_spec\<close> (lines 35 to 44).\<close>

definition get_prim_spec ::
  "UsdPrimRefEditor \<Rightarrow> world \<Rightarrow> (error + spec_handle) \<times> UsdPrimRefEditor \<times> world" where
  "get_prim_spec e w =
     (case get_layer e w of
        (Inl err, e1, w1) \<Rightarrow> (Inl err, e1, w1)
      | (Inr h, e1, w1) \<Rightarrow>
          (case GetPrimAtPath w1 h (prim_path e1) of
             None \<Rightarrow> (Inl (PrimNotFoundError (prim_path e1)), e1, w1)
           | Some ps \<Rightarrow> (Inr ps, e1, w1)))"

text \<open>\<open>load_primrefs\<close> (lines 47 to 59).\<close>

definition load_primrefs ::
  "UsdPrimRefEditor \<Rightarrow> world \<Rightarrow> (error + string list) \<times> UsdPrimRefEditor \<times> world" where
  "load_primrefs e w =
     (case get_prim_spec e w of
        (Inl err, e1, w1) \<Rightarrow> (Inl err, e1, w1)
      | (Inr ps, e1, w1) \<Rightarrow>
          (case get_referenceList w1 ps of
             None \<Rightarrow> (Inr [], e1, w1)
           | Some lop \<Rightarrow> (Inr (map assetPath (prependedItems lop)), e1, w1)))"

text \<open>
  The dictionary comprehension \<open>{ref.assetPath: ref for ref in original_refs}\<close>: a later
  entry with the same asset path replaces an earlier one.
\<close>

definition by_asset_of :: "reference list \<Rightarrow> (string \<rightharpoonup> reference)" where
  "by_asset_of refs = foldl (\<lambda>m r. m(assetPath r \<mapsto> r)) Map.empty refs"

text \<open>
  The list comprehension \<open>[by_asset[path] for path in new_order]\<close> inside the \<open>try\<close>: the
  first path that is not a key raises \<open>KeyError\<close>, which becomes the unknown-reference error.
\<close>

fun lookup_all :: "(string \<rightharpoonup> reference) \<Rightarrow> string list \<Rightarrow> error + reference list" where
  "lookup_all m [] = Inr []"
| "lookup_all m (p # ps) =
     (case m p of
        None \<Rightarrow> Inl (UnknownReferenceError p)
      | Some r \<Rightarrow> (case lookup_all m ps of Inl err \<Rightarrow> Inl err | Inr rs \<Rightarrow> Inr (r # rs)))"

text \<open>
  \<open>save_primrefs\<close> (lines 62 to 88). After the assignment of line 85 the function calls
  \<open>_get_layer\<close> a second time (line 87), which reloads the layer, and then saves it.
\<close>

definition save_primrefs ::
  "UsdPrimRefEditor \<Rightarrow> world \<Rightarrow> string list \<Rightarrow> (error + unit) \<times> UsdPrimRefEditor \<times> world" where
  "save_primrefs e w new_order =
     (case get_prim_spec e w of
        (Inl err, e1, w1) \<Rightarrow> (Inl err, e1, w1)
      | (Inr ps, e1, w1) \<Rightarrow>
          (case get_referenceList w1 ps of
             None \<Rightarrow> (Inl NoReferencesError, e1, w1)
           | Some lop \<Rightarrow>
               (let original_refs = prependedItems lop in
                if original_refs = [] \<and> new_order \<noteq> []
                then (Inl NoPrependedReferencesError, e1, w1)
                else
                  (case lookup_all (by_asset_of original_refs) new_order of
                     Inl err \<Rightarrow> (Inl err, e1, w1)
                   | Inr reordered_refs \<Rightarrow>
                       (let w2 = set_prependedItems w1 ps reordered_refs in
                        case get_layer e1 w2 of
                          (Inl err, e2, w3) \<Rightarrow> (Inl err, e2, w3)
                        | (Inr h, e2, w3) \<Rightarrow> (Inr (), e2, Save w3 h))))))"

section \<open>UsdaSublayerEditor\<close>

text \<open>
  The class \<open>UsdaSublayerEditor\<close> (lines 96 to 136), with its own copy of \<open>_get_layer\<close>. In
  \<open>save_sublayers\<close> the layer is fetched, and so reloaded, before the assignment.
\<close>

record UsdaSublayerEditor =
  sub_usda_path :: string
  sub_cached_layer :: "string option"

definition UsdaSublayerEditor_init :: "string \<Rightarrow> UsdaSublayerEditor" where
  "UsdaSublayerEditor_init u = \<lparr>sub_usda_path = u, sub_cached_layer = None\<rparr>"

definition sub_get_layer ::
  "UsdaSublayerEditor \<Rightarrow> world \<Rightarrow> (error + string) \<times> UsdaSublayerEditor \<times> world" where
  "sub_get_layer e w =
     (case sub_cached_layer e of
        None \<Rightarrow>
          (case FindOrOpen w (sub_usda_path e) of
             (None, w1) \<Rightarrow> (Inl (LayerOpenError (sub_usda_path e)), e, w1)
           | (Some h, w1) \<Rightarrow> (Inr h, e\<lparr>sub_cached_layer := Some h\<rparr>, Reload w1 h))
      | Some h \<Rightarrow> (Inr h, e, Reload w h))"

definition load_sublayers ::
  "UsdaSublayerEditor \<Rightarrow> world \<Rightarrow> (error + string list) \<times> UsdaSublayerEditor \<times> world" where
  "load_sublayers e w =
     (case sub_get_layer e w of
        (Inl err, e1, w1) \<Rightarrow> (Inl err, e1, w1)
      | (Inr h, e1, w1) \<Rightarrow> (Inr (get_subLayerPaths w1 h), e1, w1))"

definition save_sublayers ::
  "UsdaSublayerEditor \<Rightarrow> world \<Rightarrow> string list \<Rightarrow> (error + unit) \<times> UsdaSublayerEditor \<times> world" where
  "save_sublayers e w new_order =
     (case sub_get_layer e w of
        (Inl err, e1, w1) \<Rightarrow> (Inl err, e1, w1)
      | (Inr h, e1, w1) \<Rightarrow> (Inr (), e1, Save (set_subLayerPaths w1 h new_order) h))"

section \<open>get_prim_paths_with_prepended_refs\<close>

text \<open>
  The function of lines 139 to 161. \<open>node_count\<close> counts the prim specs of a subtree; it is
  the measure under which the loop terminates.
\<close>

fun node_count :: "prim_spec \<Rightarrow> nat" where
  "node_count (PrimSpec p r cs) = Suc (sum_list (map node_count cs))"

definition has_prepended :: "prim_spec \<Rightarrow> bool" where
  "has_prepended spec =
     (case referenceList spec of None \<Rightarrow> False | Some lop \<Rightarrow> prependedItems lop \<noteq> [])"

text \<open>
  The \<open>while stack:\<close> loop. The stack is a Python list: \<open>pop()\<close> takes its last element and
  \<open>append\<close> adds at the end.
\<close>

function traverse :: "prim_spec list \<Rightarrow> string list \<Rightarrow> string list" where
  "traverse stack result =
     (if stack = [] then result
      else
        (let spec = last stack;
             stack1 = butlast stack;
             result1 = (if has_prepended spec then result @ [path spec] else result)
         in traverse (stack1 @ nameChildren spec) result1))"
  by pat_completeness auto

termination traverse
  apply (relation "measure (\<lambda>(stack, result). sum_list (map node_count stack))")
   apply simp
  subgoal for stack result spec stack1 result1
    by (cases stack rule: rev_cases; cases spec; auto)
  done

declare traverse.simps [simp del]

definition get_prim_paths_with_prepended_refs :: "string \<Rightarrow> world \<Rightarrow> (error + string list) \<times> world" where
  "get_prim_paths_with_prepended_refs u w =
     (case FindOrOpen w u of
        (None, w1) \<Rightarrow> (Inl (LayerOpenError u), w1)
      | (Some h, w1) \<Rightarrow>
          (let w2 = Reload w1 h
           in (Inr (traverse (get_rootPrims w2 h) []), w2)))"

section \<open>Notions used to state the properties\<close>

text \<open>Every prim spec of a prim tree, in document order.\<close>

fun specs_of :: "prim_spec \<Rightarrow> prim_spec list" where
  "specs_of (PrimSpec p r cs) = PrimSpec p r cs # concat (map specs_of cs)"

definition all_specs :: "prim_spec list \<Rightarrow> prim_spec list" where
  "all_specs ss = concat (map specs_of ss)"

text \<open>The prepended-reference list a layer holds for the prim at a path.\<close>

definition prepended_of :: "layer \<Rightarrow> string \<Rightarrow> reference list" where
  "prepended_of l p =
     (case find_specs p (rootPrims l) of
        None \<Rightarrow> []
      | Some s \<Rightarrow> (case referenceList s of None \<Rightarrow> [] | Some lop \<Rightarrow> prependedItems lop))"

text \<open>
  An editor holds either no layer yet or the layer of its own file: the only assignment to
  \<open>_layer\<close> stores what \<open>FindOrOpen(self.usda_path)\<close> returned.
\<close>

definition editor_ok :: "UsdPrimRefEditor \<Rightarrow> bool" where
  "editor_ok e = (cached_layer e = None \<or> cached_layer e = Some (usda_path e))"

definition sub_editor_ok :: "UsdaSublayerEditor \<Rightarrow> bool" where
  "sub_editor_ok e = (sub_cached_layer e = None \<or> sub_cached_layer e = Some (sub_usda_path e))"

text \<open>The editor once it holds its layer, and the world once that layer is reloaded.\<close>

definition opened :: "UsdPrimRefEditor \<Rightarrow> UsdPrimRefEditor" where
  "opened e = e\<lparr>cached_layer := Some (usda_path e)\<rparr>"

definition sub_opened :: "UsdaSublayerEditor \<Rightarrow> UsdaSublayerEditor" where
  "sub_opened e = e\<lparr>sub_cached_layer := Some (sub_usda_path e)\<rparr>"

definition reloaded :: "world \<Rightarrow> string \<Rightarrow> layer \<Rightarrow> world" where
  "reloaded w u l = w\<lparr>memory := (memory w)(u \<mapsto> l)\<rparr>"

text \<open>
  A sample file: one prim \<open>/P\<close> with the prepended references \<open>a.usda\<close>, \<open>b.usda\<close>, \<open>c.usda\<close>,
  a prim \<open>/Q\<close> whose reference-list operation has no prepended item, and a prim \<open>/Q/R\<close>
  with no reference-list operation.
\<close>

definition ref_to :: "string \<Rightarrow> reference" where
  "ref_to a = \<lparr>assetPath = a, primPath = []\<rparr>"

definition sample_layer :: layer where
  "sample_layer =
     \<lparr>rootPrims =
        [PrimSpec ''/P''
           (Some \<lparr>prependedItems = [ref_to ''a.usda'', ref_to ''b.usda'', ref_to ''c.usda''],
                  appendedItems = []\<rparr>) [],
         PrimSpec ''/Q'' (Some \<lparr>prependedItems = [], appendedItems = []\<rparr>)
           [PrimSpec ''/Q/R'' None []]],
      subLayerPaths = [''base.usda'']\<rparr>"

definition sample_world :: world where
  "sample_world = \<lparr>disk = [''shot.usda'' \<mapsto> sample_layer], memory = Map.empty\<rparr>"

text \<open>
  What \<open>save_primrefs\<close> answers for the layer content \<open>l\<close> that the reload brings in, the prim
  path \<open>p\<close> and the requested order: the checks of the function in their order.
\<close>

definition save_outcome :: "layer \<Rightarrow> string \<Rightarrow> string list \<Rightarrow> error + unit" where
  "save_outcome l p new_order =
     (case find_specs p (rootPrims l) of
        None \<Rightarrow> Inl (PrimNotFoundError p)
      | Some s \<Rightarrow>
          (case referenceList s of
             None \<Rightarrow> Inl NoReferencesError
           | Some lop \<Rightarrow>
               if prependedItems lop = [] \<and> new_order \<noteq> [] then Inl NoPrependedReferencesError
               else
                 (case lookup_all (by_asset_of (prependedItems lop)) new_order of
                    Inl err \<Rightarrow> Inl err
                  | Inr rs \<Rightarrow> Inr ())))"

text \<open>
  A second sample file, the one of the traversal example: \<open>/A\<close> without references, its child
  \<open>/A/B\<close> with one prepended reference, and \<open>/C\<close> with two.
\<close>

definition tree_layer :: layer where
  "tree_layer =
     \<lparr>rootPrims =
        [PrimSpec ''/A'' None
           [PrimSpec ''/A/B'' (Some \<lparr>prependedItems = [ref_to ''b.usda''], appendedItems = []\<rparr>) []],
         PrimSpec ''/C''
           (Some \<lparr>prependedItems = [ref_to ''c1.usda'', ref_to ''c2.usda''], appendedItems = []\<rparr>) []],
      subLayerPaths = []\<rparr>"

definition tree_world :: world where
  "tree_world = \<lparr>disk = [''tree.usda'' \<mapsto> tree_layer], memory = Map.empty\<rparr>"

text \<open>
  The layer an operation works on once it has fetched and reloaded it: the content of the
  file, or, when the file is gone, the layer the library still holds in memory. The
  prepended-reference list of a prim in it is the list the operation reads.
\<close>

definition layer_seen :: "world \<Rightarrow> string \<Rightarrow> layer option" where
  "layer_seen w u = (case disk w u of Some l \<Rightarrow> Some l | None \<Rightarrow> memory w u)"

definition prepended_seen :: "world \<Rightarrow> string \<Rightarrow> string \<Rightarrow> reference list" where
  "prepended_seen w u p = (case layer_seen w u of None \<Rightarrow> [] | Some l \<Rightarrow> prepended_of l p)"

text \<open>
  The sample file after an editor has opened it and the file has then been removed: the
  library still holds the layer, the disk has nothing.
\<close>

definition cached_world :: world where
  "cached_world = \<lparr>disk = Map.empty, memory = [''shot.usda'' \<mapsto> sample_layer]\<rparr>"

section \<open>Properties\<close>


lemma get_layer_ok:
  assumes "editor_ok e" and "disk w (usda_path e) = Some l"
  shows "get_layer e w = (Inr (usda_path e), opened e, reloaded w (usda_path e) l)"
  using assms
  by (auto simp: get_layer_def FindOrOpen_def Reload_def editor_ok_def opened_def reloaded_def
      split: option.splits)

lemma editor_ok_opened: "editor_ok (opened e)"
  by (simp add: editor_ok_def opened_def)

lemma opened_opened: "opened (opened e) = opened e"
  by (simp add: opened_def)

lemma reloaded_fields:
  "disk (reloaded w u l) = disk w"
  "memory (reloaded w u l) u = Some l"
  by (simp_all add: reloaded_def)

lemma get_prim_spec_ok:
  assumes "editor_ok e" and "disk w (usda_path e) = Some l"
  shows "get_prim_spec e w =
    ((case find_specs (prim_path e) (rootPrims l) of
        None \<Rightarrow> Inl (PrimNotFoundError (prim_path e))
      | Some s \<Rightarrow> Inr (usda_path e, prim_path e)),
     opened e, reloaded w (usda_path e) l)"
  by (simp add: get_prim_spec_def get_layer_ok [OF assms] GetPrimAtPath_def reloaded_def
      opened_def split: option.splits)

lemma load_primrefs_ok:
  assumes "editor_ok e" and "disk w (usda_path e) = Some l"
  shows "load_primrefs e w =
    ((case find_specs (prim_path e) (rootPrims l) of
        None \<Rightarrow> Inl (PrimNotFoundError (prim_path e))
      | Some s \<Rightarrow> Inr (map assetPath (prepended_of l (prim_path e)))),
     opened e, reloaded w (usda_path e) l)"
  by (simp add: load_primrefs_def get_prim_spec_ok [OF assms] get_referenceList_def
      reloaded_def prepended_of_def split: option.splits)

lemma set_prependedItems_disk: "disk (set_prependedItems w ps items) = disk w"
  by (simp add: set_prependedItems_def split: option.splits)

lemma reloaded_set_prependedItems:
  "reloaded (set_prependedItems (reloaded w u l0) (u, p) items) u l = reloaded w u l"
  by (simp add: set_prependedItems_def reloaded_def split: option.splits)

lemma Save_reloaded:
  "disk w u = Some l \<Longrightarrow> Save (reloaded w u l) u = reloaded w u l"
  by (simp add: Save_def reloaded_def map_upd_triv)

lemma save_primrefs_ok:
  assumes "editor_ok e" and "disk w (usda_path e) = Some l"
  shows "save_primrefs e w new_order =
    (save_outcome l (prim_path e) new_order, opened e, reloaded w (usda_path e) l)"
proof -
  have gl: "get_layer (opened e) w2 = (Inr (usda_path e), opened e, reloaded w2 (usda_path e) l)"
    if "disk w2 = disk w" for w2
    using get_layer_ok [of "opened e" w2 l] that assms(2)
    by (simp add: editor_ok_opened opened_opened) (simp add: opened_def)
  show ?thesis
    by (simp add: save_primrefs_def get_prim_spec_ok [OF assms] save_outcome_def
        get_referenceList_def reloaded_fields gl set_prependedItems_disk
        reloaded_set_prependedItems Save_reloaded [OF assms(2)] Let_def
        split: option.splits sum.splits)
qed

lemma foldl_by_asset_dom:
  "dom (foldl (\<lambda>m r. m(assetPath r \<mapsto> r)) m0 refs) = dom m0 \<union> assetPath ` set refs"
  by (induction refs arbitrary: m0) auto

lemma by_asset_of_None: "by_asset_of refs p = None \<longleftrightarrow> p \<notin> assetPath ` set refs"
  using foldl_by_asset_dom [of Map.empty refs] by (auto simp: by_asset_of_def domIff)

lemma by_asset_of_dom: "dom (by_asset_of refs) = assetPath ` set refs"
  using foldl_by_asset_dom [of Map.empty refs] by (simp add: by_asset_of_def)

lemma lookup_all_missing:
  "\<not> set ps \<subseteq> dom m \<Longrightarrow>
     lookup_all m ps = Inl (UnknownReferenceError (hd (filter (\<lambda>q. m q = None) ps)))"
proof (induction ps)
  case Nil
  then show ?case by simp
next
  case (Cons p ps)
  show ?case
  proof (cases "m p")
    case None
    then show ?thesis by simp
  next
    case (Some r)
    with Cons.prems have "\<not> set ps \<subseteq> dom m" by auto
    from Cons.IH [OF this] Some show ?thesis by simp
  qed
qed

lemma lookup_all_found:
  "set ps \<subseteq> dom m \<Longrightarrow> lookup_all m ps = Inr (map (\<lambda>q. the (m q)) ps)"
  by (induction ps) (auto split: option.splits)

lemma hd_filter_in:
  "\<not> set ps \<subseteq> A \<Longrightarrow> hd (filter (\<lambda>q. q \<notin> A) ps) \<in> set ps \<and> hd (filter (\<lambda>q. q \<notin> A) ps) \<notin> A"
proof -
  assume "\<not> set ps \<subseteq> A"
  then have ne: "filter (\<lambda>q. q \<notin> A) ps \<noteq> []" by (auto simp: filter_empty_conv)
  from hd_in_set [OF ne] show ?thesis by simp
qed

lemma opened_fields:
  "usda_path (opened e) = usda_path e" "prim_path (opened e) = prim_path e"
  by (simp_all add: opened_def)

text \<open>
  Claim C2, as amended. When the prim has a reference-list operation whose prepended list is
  not empty and some path of \<open>new_order\<close> is not the asset path of any current prepended
  reference, \<open>save_primrefs\<close> fails with the unknown-reference error that names the first such
  path of \<open>new_order\<close>; the file on disk is as before, the layer in memory is the content of
  the file, and a following \<open>load_primrefs\<close> returns the original order.
\<close>

theorem save_primrefs_unknown_reference:
  assumes "editor_ok e" and "disk w (usda_path e) = Some l"
    and "find_specs (prim_path e) (rootPrims l) = Some s"
    and "referenceList s = Some lop"
    and "prependedItems lop \<noteq> []"
    and "\<not> set new_order \<subseteq> assetPath ` set (prependedItems lop)"
  shows "\<exists>p e' w'. save_primrefs e w new_order = (Inl (UnknownReferenceError p), e', w')
     \<and> p = hd (filter (\<lambda>q. q \<notin> assetPath ` set (prependedItems lop)) new_order)
     \<and> p \<in> set new_order \<and> p \<notin> assetPath ` set (prependedItems lop)
     \<and> disk w' = disk w \<and> memory w' (usda_path e) = Some l
     \<and> fst (load_primrefs e' w') = Inr (map assetPath (prependedItems lop))"
proof -
  let ?A = "assetPath ` set (prependedItems lop)"
  let ?p = "hd (filter (\<lambda>q. q \<notin> ?A) new_order)"
  have nd: "\<not> set new_order \<subseteq> dom (by_asset_of (prependedItems lop))"
    using assms(6) by (simp add: by_asset_of_dom)
  have "lookup_all (by_asset_of (prependedItems lop)) new_order = Inl (UnknownReferenceError ?p)"
    using lookup_all_missing [OF nd] by (simp add: by_asset_of_None)
  then have out: "save_outcome l (prim_path e) new_order = Inl (UnknownReferenceError ?p)"
    using assms(3,4,5) by (simp add: save_outcome_def)
  have sv: "save_primrefs e w new_order =
      (Inl (UnknownReferenceError ?p), opened e, reloaded w (usda_path e) l)"
    using save_primrefs_ok [OF assms(1,2), of new_order] out by simp
  have ld: "fst (load_primrefs (opened e) (reloaded w (usda_path e) l)) =
      Inr (map assetPath (prependedItems lop))"
    using load_primrefs_ok [of "opened e" "reloaded w (usda_path e) l" l] assms(2,3,4)
    by (simp add: editor_ok_opened opened_fields reloaded_fields prepended_of_def)
  show ?thesis
    using sv ld hd_filter_in [OF assms(6)] by (simp add: reloaded_fields)
qed

lemma init_fields:
  "usda_path (UsdPrimRefEditor_init u p) = u"
  "prim_path (UsdPrimRefEditor_init u p) = (if startswith p ''/'' then p else ''/'' @ p)"
  "editor_ok (UsdPrimRefEditor_init u p)"
  by (simp_all add: UsdPrimRefEditor_init_def editor_ok_def)

lemma sample_disk: "disk sample_world ''shot.usda'' = Some sample_layer"
  by (simp add: sample_world_def)

theorem save_primrefs_unknown_reference_witness:
  "\<exists>e' w'. save_primrefs (UsdPrimRefEditor_init ''shot.usda'' ''P'') sample_world
         [''a.usda'', ''nonexistent.usda''] = (Inl (UnknownReferenceError ''nonexistent.usda''), e', w')
     \<and> disk w' = disk sample_world
     \<and> fst (load_primrefs e' w') = Inr [''a.usda'', ''b.usda'', ''c.usda'']"
  using save_primrefs_unknown_reference [of "UsdPrimRefEditor_init ''shot.usda'' ''P''"
      sample_world sample_layer
      "PrimSpec ''/P'' (Some \<lparr>prependedItems = [ref_to ''a.usda'', ref_to ''b.usda'', ref_to ''c.usda''], appendedItems = []\<rparr>) []"
      "\<lparr>prependedItems = [ref_to ''a.usda'', ref_to ''b.usda'', ref_to ''c.usda''], appendedItems = []\<rparr>"
      "[''a.usda'', ''nonexistent.usda'']"]
  by (simp add: init_fields sample_disk startswith_def sample_layer_def ref_to_def) blast

text \<open>
  Claim C2 as stated fails where the prepended list is empty: for the prim \<open>/Q\<close> of the sample
  file the path \<open>x.usda\<close> is not among the current asset paths, and the call fails with
  "No prepended references found on prim.", not with the unknown-reference error.
\<close>

theorem save_primrefs_empty_list_counterexample:
  "\<not> set [''x.usda''] \<subseteq> assetPath ` set (prepended_of sample_layer ''/Q'')
   \<and> fst (save_primrefs (UsdPrimRefEditor_init ''shot.usda'' ''/Q'') sample_world [''x.usda''])
       = Inl NoPrependedReferencesError
   \<and> NoPrependedReferencesError \<noteq> UnknownReferenceError ''x.usda''"
  by (simp add: save_primrefs_ok [OF init_fields(3)] init_fields sample_disk startswith_def
      save_outcome_def prepended_of_def sample_layer_def)

lemma find_spec_self: "path s = p \<Longrightarrow> find_spec p s = Some s"
  by (cases s) simp

lemma update_None:
  "find_spec p s = None \<Longrightarrow> update_spec p f s = None"
  "find_specs p ss = None \<Longrightarrow> update_specs p f ss = None"
  by (induction p s and p ss rule: find_spec_find_specs.induct)
    (auto split: if_splits option.splits)

lemma update_find:
  assumes pf: "\<And>s. path (f s) = path s"
  shows "find_spec p s = Some x \<Longrightarrow>
      \<exists>s'. update_spec p f s = Some s' \<and> find_spec p s' = Some (f x)"
    and "find_specs p ss = Some x \<Longrightarrow>
      \<exists>ss'. update_specs p f ss = Some ss' \<and> find_specs p ss' = Some (f x)"
proof (induction p s and p ss arbitrary: x and x rule: find_spec_find_specs.induct)
  case (1 p q r cs)
  show ?case
  proof (cases "q = p")
    case True
    with "1.prems" have x: "x = PrimSpec q r cs" by simp
    have "path (f x) = p" using pf x True by simp
    then have "find_spec p (f x) = Some (f x)" by (rule find_spec_self)
    with True x show ?thesis by simp
  next
    case False
    with "1.prems" have "find_specs p cs = Some x" by simp
    from "1.IH" [OF False this] obtain cs' where
      "update_specs p f cs = Some cs'" "find_specs p cs' = Some (f x)" by blast
    with False show ?thesis by simp
  qed
next
  case (2 p)
  then show ?case by simp
next
  case (3 p s ss)
  show ?case
  proof (cases "find_spec p s")
    case None
    with "3.prems" have "find_specs p ss = Some x" by simp
    from "3.IH"(2) [OF None this] obtain ss' where
      "update_specs p f ss = Some ss'" "find_specs p ss' = Some (f x)" by blast
    with None update_None(1) [OF None, of f] show ?thesis by simp
  next
    case (Some y)
    with "3.prems" have "y = x" by simp
    with Some have fx: "find_spec p s = Some x" by simp
    from "3.IH"(1) [OF fx] obtain s' where
      "update_spec p f s = Some s'" "find_spec p s' = Some (f x)" by blast
    then show ?thesis by simp
  qed
qed

lemma assign_path: "path (assign_prependedItems items s) = path s"
  by (simp add: assign_prependedItems_def)

lemma set_prependedItems_seen:
  assumes "memory w u = Some l" and "find_specs p (rootPrims l) = Some s"
    and "referenceList s = Some lop"
  shows "\<exists>l2. set_prependedItems w (u, p) rs = w\<lparr>memory := (memory w)(u \<mapsto> l2)\<rparr>
     \<and> prepended_of l2 p = rs"
proof -
  from update_find(2) [of "assign_prependedItems rs" p "rootPrims l" s, OF assign_path assms(2)]
  obtain ss' where u: "update_specs p (assign_prependedItems rs) (rootPrims l) = Some ss'"
    and f: "find_specs p ss' = Some (assign_prependedItems rs s)" by blast
  have "prepended_of (l\<lparr>rootPrims := ss'\<rparr>) p = rs"
    using f assms(3) by (simp add: prepended_of_def assign_prependedItems_def)
  moreover have "set_prependedItems w (u, p) rs = w\<lparr>memory := (memory w)(u \<mapsto> l\<lparr>rootPrims := ss'\<rparr>)\<rparr>"
    using assms(1) u by (simp add: set_prependedItems_def)
  ultimately show ?thesis by blast
qed

lemma get_layer_seen:
  assumes "editor_ok e" and "layer_seen w (usda_path e) = Some l"
  shows "get_layer e w = (Inr (usda_path e), opened e, reloaded w (usda_path e) l)"
  using assms
  by (auto simp: get_layer_def FindOrOpen_def Reload_def editor_ok_def opened_def reloaded_def
      layer_seen_def map_upd_triv split: option.splits)

lemma get_prim_spec_seen:
  assumes "editor_ok e" and "layer_seen w (usda_path e) = Some l"
  shows "get_prim_spec e w =
    ((case find_specs (prim_path e) (rootPrims l) of
        None \<Rightarrow> Inl (PrimNotFoundError (prim_path e))
      | Some s \<Rightarrow> Inr (usda_path e, prim_path e)),
     opened e, reloaded w (usda_path e) l)"
  by (simp add: get_prim_spec_def get_layer_seen [OF assms] GetPrimAtPath_def reloaded_def
      opened_def split: option.splits)

lemma get_layer_opened:
  "get_layer (opened e) w = (Inr (usda_path e), opened e, Reload w (usda_path e))"
  by (simp add: get_layer_def opened_def)

lemma save_primrefs_outcome:
  assumes "editor_ok e" and "layer_seen w (usda_path e) = Some l"
  shows "fst (save_primrefs e w new_order) = save_outcome l (prim_path e) new_order"
  by (simp add: save_primrefs_def get_prim_spec_seen [OF assms] get_referenceList_def
      reloaded_fields save_outcome_def get_layer_opened Let_def
      split: option.splits sum.splits)

lemma save_primrefs_nothing_held:
  assumes "editor_ok e" and "disk w (usda_path e) = None" and "memory w (usda_path e) = None"
  shows "fst (save_primrefs e w new_order) \<noteq> Inr ()"
  using assms
  by (auto simp: save_primrefs_def get_prim_spec_def get_layer_def FindOrOpen_def Reload_def
      GetPrimAtPath_def editor_ok_def split: option.splits)

lemma reloaded_triv: "memory w u = Some l \<Longrightarrow> reloaded w u l = w"
  by (simp add: reloaded_def map_upd_triv)

lemma save_primrefs_file_gone:
  assumes ok: "editor_ok e" and nd: "disk w (usda_path e) = None"
    and m: "memory w (usda_path e) = Some l"
    and f: "find_specs (prim_path e) (rootPrims l) = Some s"
    and r: "referenceList s = Some lop"
    and g: "prependedItems lop \<noteq> [] \<or> new_order = []"
    and lk: "lookup_all (by_asset_of (prependedItems lop)) new_order = Inr rs"
  shows "\<exists>l2. save_primrefs e w new_order =
      (Inr (), opened e,
       w\<lparr>memory := (memory w)(usda_path e \<mapsto> l2), disk := (disk w)(usda_path e \<mapsto> l2)\<rparr>)
     \<and> prepended_of l2 (prim_path e) = rs"
proof -
  let ?u = "usda_path e" and ?p = "prim_path e"
  have seen: "layer_seen w ?u = Some l"
    using nd m by (simp add: layer_seen_def)
  have gp: "get_prim_spec e w = (Inr (?u, ?p), opened e, w)"
    using get_prim_spec_seen [OF ok seen] f reloaded_triv [OF m] by simp
  have rl: "get_referenceList w (?u, ?p) = Some lop"
    using m f r by (simp add: get_referenceList_def)
  from set_prependedItems_seen [OF m f r, of rs] obtain l2 where
    sp: "set_prependedItems w (?u, ?p) rs = w\<lparr>memory := (memory w)(?u \<mapsto> l2)\<rparr>"
    and pr: "prepended_of l2 ?p = rs" by blast
  let ?w2 = "w\<lparr>memory := (memory w)(?u \<mapsto> l2)\<rparr>"
  have rel: "Reload ?w2 ?u = ?w2"
    using nd by (simp add: Reload_def)
  have sv: "Save ?w2 ?u = w\<lparr>memory := (memory w)(?u \<mapsto> l2), disk := (disk w)(?u \<mapsto> l2)\<rparr>"
    by (simp add: Save_def)
  have "save_primrefs e w new_order =
      (Inr (), opened e, w\<lparr>memory := (memory w)(?u \<mapsto> l2), disk := (disk w)(?u \<mapsto> l2)\<rparr>)"
    using g lk by (auto simp: save_primrefs_def gp rl sp get_layer_opened rel sv Let_def)
  with pr show ?thesis by blast
qed

lemma foldl_by_asset_Some:
  "foldl (\<lambda>m r. m(assetPath r \<mapsto> r)) m0 refs p = Some r \<Longrightarrow>
     (r \<in> set refs \<and> assetPath r = p) \<or> m0 p = Some r"
proof (induction refs arbitrary: m0)
  case Nil
  then show ?case by simp
next
  case (Cons a refs)
  from Cons.prems have "foldl (\<lambda>m r. m(assetPath r \<mapsto> r)) (m0(assetPath a \<mapsto> a)) refs p = Some r"
    by (simp only: foldl_Cons)
  from Cons.IH [OF this]
  have "(r \<in> set refs \<and> assetPath r = p) \<or> (m0(assetPath a \<mapsto> a)) p = Some r" .
  then show ?case
    by (auto split: if_splits)
qed

lemma by_asset_of_Some: "by_asset_of refs p = Some r \<Longrightarrow> r \<in> set refs \<and> assetPath r = p"
  using foldl_by_asset_Some [of Map.empty refs p r] by (simp add: by_asset_of_def)

lemma lookup_all_entries:
  "lookup_all (by_asset_of refs) new_order = Inr rs \<Longrightarrow>
     map assetPath rs = new_order \<and> set rs \<subseteq> set refs"
proof (induction new_order arbitrary: rs)
  case Nil
  then show ?case by simp
next
  case (Cons p ps)
  from Cons.prems obtain r rs' where r: "by_asset_of refs p = Some r"
    and rs': "lookup_all (by_asset_of refs) ps = Inr rs'" and eq: "rs = r # rs'"
    by (auto split: option.splits sum.splits)
  from Cons.IH [OF rs'] by_asset_of_Some [OF r] eq show ?case
    by simp
qed

text \<open>
  Claim C3, as amended. After a call of \<open>save_primrefs\<close> that raises no error, every entry of
  the prim's prepended-reference list is an entry of the list the call found, so no entry
  and no asset path is added; and when \<open>new_order\<close> is a permutation of the current asset
  paths, the multiset of asset paths after the call is the multiset before it. The lists are
  the ones an operation reads once it has reloaded the layer (\<open>prepended_seen\<close>).
\<close>

theorem save_primrefs_adds_no_entry:
  assumes "editor_ok e" and "save_primrefs e w new_order = (Inr (), e', w')"
  shows "set (prepended_seen w' (usda_path e) (prim_path e))
       \<subseteq> set (prepended_seen w (usda_path e) (prim_path e))
     \<and> (mset new_order = mset (map assetPath (prepended_seen w (usda_path e) (prim_path e))) \<longrightarrow>
          mset (map assetPath (prepended_seen w' (usda_path e) (prim_path e)))
          = mset (map assetPath (prepended_seen w (usda_path e) (prim_path e))))"
proof (cases "disk w (usda_path e)")
  case (Some l)
  from save_primrefs_ok [OF assms(1) Some, of new_order] assms(2)
  have w': "w' = reloaded w (usda_path e) l" by simp
  have "prepended_seen w' (usda_path e) (prim_path e) = prepended_seen w (usda_path e) (prim_path e)"
    using Some by (simp add: w' prepended_seen_def layer_seen_def reloaded_fields)
  then show ?thesis by simp
next
  case None
  show ?thesis
  proof (cases "memory w (usda_path e)")
    case nm: None
    from save_primrefs_nothing_held [OF assms(1) None nm, of new_order] assms(2)
    show ?thesis by simp
  next
    case (Some l)
    have seen: "layer_seen w (usda_path e) = Some l"
      using None Some by (simp add: layer_seen_def)
    from save_primrefs_outcome [OF assms(1) seen, of new_order] assms(2)
    have "save_outcome l (prim_path e) new_order = Inr ()" by simp
    then obtain s lop rs where f: "find_specs (prim_path e) (rootPrims l) = Some s"
      and r: "referenceList s = Some lop"
      and g: "prependedItems lop \<noteq> [] \<or> new_order = []"
      and lk: "lookup_all (by_asset_of (prependedItems lop)) new_order = Inr rs"
      by (auto simp: save_outcome_def split: option.splits if_splits sum.splits)
    from save_primrefs_file_gone [OF assms(1) None Some f r g lk] assms(2)
    obtain l2 where w': "w' = w\<lparr>memory := (memory w)(usda_path e \<mapsto> l2),
        disk := (disk w)(usda_path e \<mapsto> l2)\<rparr>"
      and pr: "prepended_of l2 (prim_path e) = rs" by auto
    have before: "prepended_seen w (usda_path e) (prim_path e) = prependedItems lop"
      using seen f r by (simp add: prepended_seen_def prepended_of_def)
    have after: "prepended_seen w' (usda_path e) (prim_path e) = rs"
      using pr by (simp add: w' prepended_seen_def layer_seen_def)
    from lookup_all_entries [OF lk] show ?thesis
      by (simp add: before after)
  qed
qed

lemma cached_editor_ok: "editor_ok (opened (UsdPrimRefEditor_init u p))"
  by (rule editor_ok_opened)

lemma cached_seen: "layer_seen cached_world ''shot.usda'' = Some sample_layer"
  by (simp add: layer_seen_def cached_world_def)

lemma cached_before:
  "prepended_seen cached_world ''shot.usda'' ''/P''
     = [ref_to ''a.usda'', ref_to ''b.usda'', ref_to ''c.usda'']"
  by (simp add: prepended_seen_def cached_seen prepended_of_def sample_layer_def)

theorem save_primrefs_adds_no_entry_witness:
  "fst (save_primrefs (opened (UsdPrimRefEditor_init ''shot.usda'' ''/P'')) cached_world
        [''c.usda'', ''a.usda'', ''b.usda'']) = Inr ()
   \<and> mset [''c.usda'', ''a.usda'', ''b.usda'']
       = mset (map assetPath (prepended_seen cached_world ''shot.usda'' ''/P''))
   \<and> mset (map assetPath (prepended_seen
        (snd (snd (save_primrefs (opened (UsdPrimRefEditor_init ''shot.usda'' ''/P'')) cached_world
           [''c.usda'', ''a.usda'', ''b.usda''])))
        ''shot.usda'' ''/P''))
       = mset (map assetPath (prepended_seen cached_world ''shot.usda'' ''/P''))"
proof -
  let ?e = "opened (UsdPrimRefEditor_init ''shot.usda'' ''/P'')"
  let ?r = "save_primrefs ?e cached_world [''c.usda'', ''a.usda'', ''b.usda'']"
  have u: "usda_path ?e = ''shot.usda''" and p: "prim_path ?e = ''/P''"
    by (simp_all add: opened_fields init_fields startswith_def)
  have seen: "layer_seen cached_world (usda_path ?e) = Some sample_layer"
    using cached_seen by (simp add: u)
  have o: "fst ?r = Inr ()"
    using save_primrefs_outcome [OF cached_editor_ok seen, of "[''c.usda'', ''a.usda'', ''b.usda'']"]
    by (simp add: p save_outcome_def sample_layer_def by_asset_of_def ref_to_def)
  then have eq: "?r = (Inr (), fst (snd ?r), snd (snd ?r))"
    by (simp add: prod_eq_iff)
  have perm: "mset [''c.usda'', ''a.usda'', ''b.usda'']
      = mset (map assetPath (prepended_seen cached_world ''shot.usda'' ''/P''))"
    by (simp add: cached_before ref_to_def)
  from save_primrefs_adds_no_entry [OF cached_editor_ok eq] perm o show ?thesis
    by (simp add: u p)
qed

text \<open>
  Claim C3 as stated fails: the membership check of lines 79 to 83 accepts a \<open>new_order\<close>
  that names only some of the current paths. An editor has opened the sample file and the
  file has since been removed; \<open>save_primrefs [c.usda, a.usda]\<close> on the prim \<open>/P\<close> returns
  without error and leaves the list \<open>c.usda\<close>, \<open>a.usda\<close>, in memory and in the file it writes,
  where the call found \<open>a.usda\<close>, \<open>b.usda\<close>, \<open>c.usda\<close>.
\<close>

theorem save_primrefs_drops_entries_counterexample:
  "fst (save_primrefs (opened (UsdPrimRefEditor_init ''shot.usda'' ''/P'')) cached_world
        [''c.usda'', ''a.usda'']) = Inr ()
   \<and> map assetPath (prepended_seen cached_world ''shot.usda'' ''/P'')
       = [''a.usda'', ''b.usda'', ''c.usda'']
   \<and> map assetPath (prepended_seen
        (snd (snd (save_primrefs (opened (UsdPrimRefEditor_init ''shot.usda'' ''/P'')) cached_world
           [''c.usda'', ''a.usda''])))
        ''shot.usda'' ''/P'')
       = [''c.usda'', ''a.usda'']
   \<and> mset [''c.usda'', ''a.usda''] \<noteq> mset [''a.usda'', ''b.usda'', ''c.usda'']"
proof -
  let ?e = "opened (UsdPrimRefEditor_init ''shot.usda'' ''/P'')"
  let ?lop = "\<lparr>prependedItems = [ref_to ''a.usda'', ref_to ''b.usda'', ref_to ''c.usda''],
      appendedItems = []\<rparr>"
  have u: "usda_path ?e = ''shot.usda''" and p: "prim_path ?e = ''/P''"
    by (simp_all add: opened_fields init_fields startswith_def)
  have nd: "disk cached_world (usda_path ?e) = None"
    and m: "memory cached_world (usda_path ?e) = Some sample_layer"
    by (simp_all add: u cached_world_def)
  have f: "find_specs (prim_path ?e) (rootPrims sample_layer) = Some (PrimSpec ''/P'' (Some ?lop) [])"
    by (simp add: p sample_layer_def)
  have r: "referenceList (PrimSpec ''/P'' (Some ?lop) []) = Some ?lop"
    by simp
  have g: "prependedItems ?lop \<noteq> [] \<or> [''c.usda'', ''a.usda''] = []"
    by simp
  have lk: "lookup_all (by_asset_of (prependedItems ?lop)) [''c.usda'', ''a.usda'']
      = Inr [ref_to ''c.usda'', ref_to ''a.usda'']"
    by (simp add: by_asset_of_def ref_to_def)
  from save_primrefs_file_gone [OF cached_editor_ok nd m f r g lk]
  obtain l2 where sv: "save_primrefs ?e cached_world [''c.usda'', ''a.usda''] =
      (Inr (), opened ?e,
       cached_world\<lparr>memory := (memory cached_world)(usda_path ?e \<mapsto> l2),
         disk := (disk cached_world)(usda_path ?e \<mapsto> l2)\<rparr>)"
    and pr: "prepended_of l2 (prim_path ?e) = [ref_to ''c.usda'', ref_to ''a.usda'']"
    by blast
  have after: "map assetPath (prepended_seen
        (snd (snd (save_primrefs ?e cached_world [''c.usda'', ''a.usda''])))
        ''shot.usda'' ''/P'') = [''c.usda'', ''a.usda'']"
    using pr by (simp add: sv u p prepended_seen_def layer_seen_def ref_to_def)
  have len: "length [''c.usda'', ''a.usda''] \<noteq> length [''a.usda'', ''b.usda'', ''c.usda'']"
    by simp
  have ne: "mset [''c.usda'', ''a.usda''] \<noteq> mset [''a.usda'', ''b.usda'', ''c.usda'']"
    using len by (auto dest: mset_eq_length)
  show ?thesis
    using after ne by (simp add: sv cached_before ref_to_def)
qed

text \<open>
  Claim C5. For a prim that exists in the layer and carries no reference-list operation,
  \<open>load_primrefs\<close> returns the empty list and no error.
\<close>

theorem load_primrefs_no_reference_list:
  assumes "editor_ok e" and "disk w (usda_path e) = Some l"
    and "find_specs (prim_path e) (rootPrims l) = Some s"
    and "referenceList s = None"
  shows "fst (load_primrefs e w) = Inr []"
  using assms(3,4) by (simp add: load_primrefs_ok [OF assms(1,2)] prepended_of_def)

theorem load_primrefs_no_reference_list_witness:
  "find_specs ''/Q/R'' (rootPrims sample_layer) = Some (PrimSpec ''/Q/R'' None [])
   \<and> fst (load_primrefs (UsdPrimRefEditor_init ''shot.usda'' ''Q/R'') sample_world) = Inr []"
  using load_primrefs_no_reference_list [of "UsdPrimRefEditor_init ''shot.usda'' ''Q/R''"
      sample_world sample_layer "PrimSpec ''/Q/R'' None []"]
  by (simp add: init_fields sample_disk startswith_def sample_layer_def)

text \<open>
  Claim C6. For a prim that exists in the layer and carries no reference-list operation,
  \<open>save_primrefs\<close> fails with "Prim has no references to reorder." for every \<open>new_order\<close>, the
  empty one included, and the files on disk are as before.
\<close>

theorem save_primrefs_no_reference_list:
  assumes "editor_ok e" and "disk w (usda_path e) = Some l"
    and "find_specs (prim_path e) (rootPrims l) = Some s"
    and "referenceList s = None"
  shows "fst (save_primrefs e w new_order) = Inl NoReferencesError
     \<and> disk (snd (snd (save_primrefs e w new_order))) = disk w"
  using assms(3,4)
  by (simp add: save_primrefs_ok [OF assms(1,2)] save_outcome_def reloaded_fields)

theorem save_primrefs_no_reference_list_witness:
  "fst (save_primrefs (UsdPrimRefEditor_init ''shot.usda'' ''/Q/R'') sample_world []) = Inl NoReferencesError
   \<and> disk (snd (snd (save_primrefs (UsdPrimRefEditor_init ''shot.usda'' ''/Q/R'') sample_world [])))
       = disk sample_world"
  using save_primrefs_no_reference_list [of "UsdPrimRefEditor_init ''shot.usda'' ''/Q/R''"
      sample_world sample_layer "PrimSpec ''/Q/R'' None []" "[]"]
  by (simp add: init_fields sample_disk startswith_def sample_layer_def)



text \<open>
  Claim C1 at the sample file. The prim \<open>/P\<close> holds the prepended references \<open>a.usda\<close>,
  \<open>b.usda\<close>, \<open>c.usda\<close>. The call \<open>save_primrefs [c.usda, a.usda, b.usda]\<close> returns without
  error, and the following \<open>load_primrefs\<close> returns \<open>a.usda\<close>, \<open>b.usda\<close>, \<open>c.usda\<close>: the
  second call of \<open>_get_layer\<close>, between the assignment of the reordered list and \<open>Save\<close>,
  reloads the layer from disk and discards the assignment.
\<close>

theorem save_then_load_keeps_old_order:
  "fst (load_primrefs (UsdPrimRefEditor_init ''shot.usda'' ''/P'') sample_world)
     = Inr [''a.usda'', ''b.usda'', ''c.usda'']
   \<and> save_primrefs (UsdPrimRefEditor_init ''shot.usda'' ''/P'') sample_world
        [''c.usda'', ''a.usda'', ''b.usda'']
     = (Inr (), opened (UsdPrimRefEditor_init ''shot.usda'' ''/P''),
        reloaded sample_world ''shot.usda'' sample_layer)
   \<and> fst (load_primrefs (opened (UsdPrimRefEditor_init ''shot.usda'' ''/P''))
        (reloaded sample_world ''shot.usda'' sample_layer))
     = Inr [''a.usda'', ''b.usda'', ''c.usda'']"
  by (simp add: save_primrefs_ok [OF init_fields(3)] load_primrefs_ok [OF init_fields(3)]
      load_primrefs_ok [OF editor_ok_opened] opened_fields reloaded_fields
      init_fields sample_disk startswith_def
      save_outcome_def prepended_of_def sample_layer_def by_asset_of_def ref_to_def)

text \<open>
  Claim C4 at the sample file. The call \<open>save_primrefs [c.usda, a.usda]\<close> on the prim \<open>/P\<close>
  returns without error, and afterwards the file on disk and the layer in memory still hold
  all three references in their old order: \<open>b.usda\<close> is not dropped.
\<close>

theorem save_subset_keeps_all_entries:
  "save_primrefs (UsdPrimRefEditor_init ''shot.usda'' ''/P'') sample_world [''c.usda'', ''a.usda'']
     = (Inr (), opened (UsdPrimRefEditor_init ''shot.usda'' ''/P''),
        reloaded sample_world ''shot.usda'' sample_layer)
   \<and> disk (reloaded sample_world ''shot.usda'' sample_layer) ''shot.usda'' = Some sample_layer
   \<and> memory (reloaded sample_world ''shot.usda'' sample_layer) ''shot.usda'' = Some sample_layer
   \<and> map assetPath (prepended_of sample_layer ''/P'') = [''a.usda'', ''b.usda'', ''c.usda'']"
  by (simp add: save_primrefs_ok [OF init_fields(3)] reloaded_fields
      init_fields sample_disk startswith_def
      save_outcome_def prepended_of_def sample_layer_def by_asset_of_def ref_to_def)




lemma sub_get_layer_ok:
  assumes "sub_editor_ok e" and "disk w (sub_usda_path e) = Some l"
  shows "sub_get_layer e w = (Inr (sub_usda_path e), sub_opened e, reloaded w (sub_usda_path e) l)"
  using assms
  by (auto simp: sub_get_layer_def FindOrOpen_def Reload_def sub_editor_ok_def sub_opened_def
      reloaded_def split: option.splits)

lemma sub_opened_fields:
  "sub_usda_path (sub_opened e) = sub_usda_path e" "sub_editor_ok (sub_opened e)"
  by (simp_all add: sub_opened_def sub_editor_ok_def)

lemma save_sublayers_ok:
  assumes "sub_editor_ok e" and "disk w (sub_usda_path e) = Some l"
  shows "save_sublayers e w new_order =
    (Inr (), sub_opened e,
     \<lparr>disk = (disk w)(sub_usda_path e \<mapsto> l\<lparr>subLayerPaths := new_order\<rparr>),
      memory = (memory w)(sub_usda_path e \<mapsto> l\<lparr>subLayerPaths := new_order\<rparr>)\<rparr>)"
  by (simp add: save_sublayers_def sub_get_layer_ok [OF assms] set_subLayerPaths_def Save_def
      reloaded_def)

lemma load_sublayers_ok:
  assumes "sub_editor_ok e" and "disk w (sub_usda_path e) = Some l"
  shows "load_sublayers e w =
    (Inr (subLayerPaths l), sub_opened e, reloaded w (sub_usda_path e) l)"
  by (simp add: load_sublayers_def sub_get_layer_ok [OF assms] get_subLayerPaths_def reloaded_def)

text \<open>
  Claim C7. For every list of strings \<open>new_order\<close> and every file that can be opened,
  \<open>save_sublayers\<close> succeeds without looking at the previous sublayer paths, the file on disk
  then holds exactly \<open>new_order\<close> as its sublayer paths, and a following \<open>load_sublayers\<close>
  returns exactly \<open>new_order\<close>.
\<close>

theorem save_sublayers_then_load:
  assumes "sub_editor_ok e" and "disk w (sub_usda_path e) = Some l"
  shows "\<exists>e' w'. save_sublayers e w new_order = (Inr (), e', w')
     \<and> disk w' (sub_usda_path e) = Some (l\<lparr>subLayerPaths := new_order\<rparr>)
     \<and> fst (load_sublayers e' w') = Inr new_order"
proof -
  let ?l = "l\<lparr>subLayerPaths := new_order\<rparr>"
  let ?w = "\<lparr>disk = (disk w)(sub_usda_path e \<mapsto> ?l), memory = (memory w)(sub_usda_path e \<mapsto> ?l)\<rparr>"
  have "fst (load_sublayers (sub_opened e) ?w) = Inr new_order"
    using load_sublayers_ok [of "sub_opened e" ?w ?l]
    by (simp add: sub_opened_fields)
  then show ?thesis
    by (simp add: save_sublayers_ok [OF assms])
qed

theorem save_sublayers_then_load_witness:
  "\<exists>e' w'. save_sublayers (UsdaSublayerEditor_init ''shot.usda'') sample_world [''x.usda'', ''y.usda'']
       = (Inr (), e', w')
     \<and> fst (load_sublayers e' w') = Inr [''x.usda'', ''y.usda'']
     \<and> set [''x.usda'', ''y.usda''] \<inter> set (subLayerPaths sample_layer) = {}"
  using save_sublayers_then_load [of "UsdaSublayerEditor_init ''shot.usda''" sample_world
      sample_layer "[''x.usda'', ''y.usda'']"]
  by (simp add: UsdaSublayerEditor_init_def sub_editor_ok_def sample_world_def sample_layer_def) blast

lemma specs_of_set: "set (specs_of y) = insert y (set (all_specs (nameChildren y)))"
  by (cases y) (simp add: all_specs_def)

lemma all_specs_snoc:
  "set (all_specs (ys @ [y])) = set (all_specs ys) \<union> insert y (set (all_specs (nameChildren y)))"
proof -
  have "set (all_specs (ys @ [y])) = set (all_specs ys) \<union> set (specs_of y)"
    by (simp add: all_specs_def)
  then show ?thesis
    by (simp only: specs_of_set)
qed

lemma all_specs_append: "set (all_specs (xs @ ys)) = set (all_specs xs) \<union> set (all_specs ys)"
  by (simp add: all_specs_def)

lemma traverse_Nil: "traverse [] result = result"
  by (simp add: traverse.simps [of "[]"])

lemma traverse_snoc:
  "traverse (ys @ [y]) result =
     traverse (ys @ nameChildren y) (if has_prepended y then result @ [path y] else result)"
  by (simp add: traverse.simps [of "ys @ [y]"] Let_def)

lemma traverse_set:
  "set (traverse stack result) =
     set result \<union> path ` {s \<in> set (all_specs stack). has_prepended s}"
proof (induction stack result rule: traverse.induct)
  case (1 stack result)
  show ?case
  proof (cases stack rule: rev_cases)
    case Nil
    then show ?thesis by (simp add: traverse_Nil all_specs_def)
  next
    case (snoc ys y)
    let ?r1 = "if has_prepended y then result @ [path y] else result"
    have ne: "stack \<noteq> []" using snoc by simp
    have IH: "set (traverse (ys @ nameChildren y) ?r1) =
        set ?r1 \<union> path ` {s \<in> set (all_specs (ys @ nameChildren y)). has_prepended s}"
      using "1.IH" [OF ne refl refl refl] by (simp add: snoc cong: if_cong)
    have step: "traverse stack result = traverse (ys @ nameChildren y) ?r1"
      by (simp only: snoc traverse_snoc)
    have A: "set (all_specs stack) =
        set (all_specs ys) \<union> insert y (set (all_specs (nameChildren y)))"
      by (simp only: snoc all_specs_snoc)
    have B: "set (all_specs (ys @ nameChildren y)) =
        set (all_specs ys) \<union> set (all_specs (nameChildren y))"
      by (rule all_specs_append)
    show ?thesis
      unfolding step IH A B by auto
  qed
qed

lemma get_prim_paths_ok:
  assumes "disk w u = Some l"
  shows "get_prim_paths_with_prepended_refs u w = (Inr (traverse (rootPrims l) []), reloaded w u l)"
  using assms
  by (auto simp: get_prim_paths_with_prepended_refs_def FindOrOpen_def Reload_def get_rootPrims_def
      reloaded_def Let_def split: option.splits)

text \<open>
  Claim C8. For every file that can be opened, \<open>get_prim_paths_with_prepended_refs\<close> returns
  a list whose set of elements is exactly the set of the paths of the prim specs, anywhere in
  the prim tree of the file, whose reference-list operation exists and whose prepended list
  is not empty (\<open>all_specs\<close> lists every prim spec of the tree).
\<close>

theorem get_prim_paths_with_prepended_refs_complete:
  assumes "disk w u = Some l"
  shows "\<exists>r w'. get_prim_paths_with_prepended_refs u w = (Inr r, w')
     \<and> set r = set (map path (filter has_prepended (all_specs (rootPrims l))))"
  by (simp add: get_prim_paths_ok [OF assms] traverse_set)

theorem get_prim_paths_with_prepended_refs_complete_witness:
  "\<exists>r w'. get_prim_paths_with_prepended_refs ''tree.usda'' tree_world = (Inr r, w')
     \<and> set r = {''/A/B'', ''/C''}"
proof -
  have d: "disk tree_world ''tree.usda'' = Some tree_layer"
    by (simp add: tree_world_def)
  have rhs: "map path (filter has_prepended (all_specs (rootPrims tree_layer))) = [''/A/B'', ''/C'']"
    by (simp add: tree_layer_def all_specs_def has_prepended_def)
  from get_prim_paths_with_prepended_refs_complete [OF d] show ?thesis
    unfolding rhs by simp
qed

text \<open>
  Claim C9. For a prim path \<open>p\<close> that does not begin with \<open>/\<close>, the editor constructed with
  \<open>p\<close> stores \<open>/p\<close>, is the editor constructed with \<open>/p\<close>, and so \<open>load_primrefs\<close> and
  \<open>save_primrefs\<close> behave on it as on that one; a prim path that begins with \<open>/\<close> is stored
  unchanged.
\<close>

theorem prim_path_normalised:
  "(\<not> startswith p ''/'' \<longrightarrow>
      prim_path (UsdPrimRefEditor_init u p) = ''/'' @ p
      \<and> UsdPrimRefEditor_init u p = UsdPrimRefEditor_init u (''/'' @ p)
      \<and> load_primrefs (UsdPrimRefEditor_init u p) w = load_primrefs (UsdPrimRefEditor_init u (''/'' @ p)) w
      \<and> save_primrefs (UsdPrimRefEditor_init u p) w new_order
          = save_primrefs (UsdPrimRefEditor_init u (''/'' @ p)) w new_order)
   \<and> (startswith p ''/'' \<longrightarrow> prim_path (UsdPrimRefEditor_init u p) = p)"
proof (intro conjI impI)
  assume n: "\<not> startswith p ''/''"
  have sw: "startswith (''/'' @ p) ''/''"
    by (simp add: startswith_def)
  show pp: "prim_path (UsdPrimRefEditor_init u p) = ''/'' @ p"
    using n by (simp add: UsdPrimRefEditor_init_def)
  have pq: "prim_path (UsdPrimRefEditor_init u (''/'' @ p)) = ''/'' @ p"
    using sw by (simp add: UsdPrimRefEditor_init_def)
  show eq: "UsdPrimRefEditor_init u p = UsdPrimRefEditor_init u (''/'' @ p)"
    using pp pq by (simp add: UsdPrimRefEditor_init_def)
  show "load_primrefs (UsdPrimRefEditor_init u p) w
      = load_primrefs (UsdPrimRefEditor_init u (''/'' @ p)) w"
    by (simp only: eq)
  show "save_primrefs (UsdPrimRefEditor_init u p) w new_order
      = save_primrefs (UsdPrimRefEditor_init u (''/'' @ p)) w new_order"
    by (simp only: eq)
next
  assume "startswith p ''/''"
  then show "prim_path (UsdPrimRefEditor_init u p) = p"
    by (simp add: UsdPrimRefEditor_init_def)
qed

theorem prim_path_normalised_witness:
  "\<not> startswith ''robotCharComp'' ''/''
   \<and> prim_path (UsdPrimRefEditor_init ''shot.usda'' ''robotCharComp'') = ''/robotCharComp''
   \<and> UsdPrimRefEditor_init ''shot.usda'' ''robotCharComp''
       = UsdPrimRefEditor_init ''shot.usda'' ''/robotCharComp''
   \<and> startswith ''/robotCharComp'' ''/''
   \<and> prim_path (UsdPrimRefEditor_init ''shot.usda'' ''/robotCharComp'') = ''/robotCharComp''"
proof -
  have n: "\<not> startswith ''robotCharComp'' ''/''"
    by (simp add: startswith_def)
  have y: "startswith ''/robotCharComp'' ''/''"
    by (simp add: startswith_def)
  note a = prim_path_normalised [of "''robotCharComp''" "''shot.usda''" sample_world "[]",
      THEN conjunct1, THEN mp, OF n]
  note c = prim_path_normalised [of "''/robotCharComp''" "''shot.usda''" sample_world "[]",
      THEN conjunct2, THEN mp, OF y]
  show ?thesis
  proof (intro conjI)
    show "\<not> startswith ''robotCharComp'' ''/''" by (rule n)
    show "prim_path (UsdPrimRefEditor_init ''shot.usda'' ''robotCharComp'') = ''/robotCharComp''"
      using a [THEN conjunct1] by simp
    show "UsdPrimRefEditor_init ''shot.usda'' ''robotCharComp''
        = UsdPrimRefEditor_init ''shot.usda'' ''/robotCharComp''"
      using a [THEN conjunct2, THEN conjunct1] by simp
    show "startswith ''/robotCharComp'' ''/''" by (rule y)
    show "prim_path (UsdPrimRefEditor_init ''shot.usda'' ''/robotCharComp'') = ''/robotCharComp''"
      by (rule c)
  qed
qed

section \<open>Further properties of the editors\<close>


text \<open>
  The list that \<open>save_primrefs\<close> builds at line 80 and assigns at line 85: when every lookup
  succeeds, its asset paths are exactly \<open>new_order\<close>, in that order, and each of its entries
  is a current prepended reference.
\<close>

theorem reordered_refs_follow_new_order:
  "lookup_all (by_asset_of refs) new_order = Inr rs \<Longrightarrow>
     map assetPath rs = new_order \<and> set rs \<subseteq> set refs"
  by (rule lookup_all_entries)

theorem reordered_refs_follow_new_order_witness:
  "lookup_all (by_asset_of [ref_to ''a.usda'', ref_to ''b.usda'', ref_to ''c.usda''])
      [''c.usda'', ''a.usda''] = Inr [ref_to ''c.usda'', ref_to ''a.usda'']
   \<and> map assetPath [ref_to ''c.usda'', ref_to ''a.usda''] = [''c.usda'', ''a.usda'']
   \<and> set [ref_to ''c.usda'', ref_to ''a.usda'']
       \<subseteq> set [ref_to ''a.usda'', ref_to ''b.usda'', ref_to ''c.usda'']"
proof -
  have l: "lookup_all (by_asset_of [ref_to ''a.usda'', ref_to ''b.usda'', ref_to ''c.usda''])
      [''c.usda'', ''a.usda''] = Inr [ref_to ''c.usda'', ref_to ''a.usda'']"
    by (simp add: by_asset_of_def ref_to_def)
  from reordered_refs_follow_new_order [OF l] l show ?thesis
    by simp
qed

text \<open>
  Whatever \<open>new_order\<close> is and whether or not the call raises, \<open>save_primrefs\<close> on a file
  present on disk leaves every file as it was, and the layer in memory is the content of the
  file: the reload inside the second \<open>_get_layer\<close> comes between the assignment and \<open>Save\<close>.
\<close>

theorem save_primrefs_leaves_file_unchanged:
  assumes "editor_ok e" and "disk w (usda_path e) = Some l"
  shows "disk (snd (snd (save_primrefs e w new_order))) = disk w
     \<and> memory (snd (snd (save_primrefs e w new_order))) (usda_path e) = Some l"
  by (simp add: save_primrefs_ok [OF assms] reloaded_fields)

theorem save_primrefs_leaves_file_unchanged_witness:
  "disk (snd (snd (save_primrefs (UsdPrimRefEditor_init ''shot.usda'' ''/P'') sample_world
       [''b.usda'', ''c.usda'', ''a.usda'']))) = disk sample_world
   \<and> memory (snd (snd (save_primrefs (UsdPrimRefEditor_init ''shot.usda'' ''/P'') sample_world
       [''b.usda'', ''c.usda'', ''a.usda'']))) ''shot.usda'' = Some sample_layer"
  using save_primrefs_leaves_file_unchanged [of "UsdPrimRefEditor_init ''shot.usda'' ''/P''"
      sample_world sample_layer "[''b.usda'', ''c.usda'', ''a.usda'']"]
  by (simp add: init_fields sample_disk)

text \<open>
  For a prim with a reference-list operation, \<open>load_primrefs\<close> returns the asset paths of its
  prepended references in their order in the file.
\<close>

theorem load_primrefs_returns_prepended_asset_paths:
  assumes "editor_ok e" and "disk w (usda_path e) = Some l"
    and "find_specs (prim_path e) (rootPrims l) = Some s"
    and "referenceList s = Some lop"
  shows "fst (load_primrefs e w) = Inr (map assetPath (prependedItems lop))"
  using assms(3,4) by (simp add: load_primrefs_ok [OF assms(1,2)] prepended_of_def)

theorem load_primrefs_returns_prepended_asset_paths_witness:
  "fst (load_primrefs (UsdPrimRefEditor_init ''shot.usda'' ''P'') sample_world)
     = Inr [''a.usda'', ''b.usda'', ''c.usda'']"
  using load_primrefs_returns_prepended_asset_paths [of "UsdPrimRefEditor_init ''shot.usda'' ''P''"
      sample_world sample_layer
      "PrimSpec ''/P'' (Some \<lparr>prependedItems = [ref_to ''a.usda'', ref_to ''b.usda'', ref_to ''c.usda''], appendedItems = []\<rparr>) []"
      "\<lparr>prependedItems = [ref_to ''a.usda'', ref_to ''b.usda'', ref_to ''c.usda''], appendedItems = []\<rparr>"]
  by (simp add: init_fields sample_disk startswith_def sample_layer_def ref_to_def)

text \<open>
  A new editor on a path that neither is a file nor names a layer already open fails with
  "Could not open USD layer".
\<close>

theorem load_primrefs_missing_file:
  "disk w u = None \<Longrightarrow> memory w u = None \<Longrightarrow>
     fst (load_primrefs (UsdPrimRefEditor_init u p) w) = Inl (LayerOpenError u)"
  by (simp add: load_primrefs_def get_prim_spec_def get_layer_def FindOrOpen_def
      UsdPrimRefEditor_init_def)

theorem load_primrefs_missing_file_witness:
  "fst (load_primrefs (UsdPrimRefEditor_init ''nofile.usda'' ''/P'') sample_world)
     = Inl (LayerOpenError ''nofile.usda'')"
  using load_primrefs_missing_file [of sample_world "''nofile.usda''" "''/P''"]
  by (simp add: sample_world_def)

end
